theory Spec2Isabelle
  imports Main "HOL-Library.Word"
begin

section \<open>Data model of the rollup driver\<close>

text \<open>
  The driver of \<^verbatim>\<open>cp-node/rollup/driver\<close> works on block references, block numbers of
  type \<^verbatim>\<open>uint64\<close> and heights of type \<^verbatim>\<open>*big.Int\<close>. Hashes are 32 bytes wide.
\<close>

type_synonym hash = "256 word"
type_synonym u64 = "64 word"
type_synonym chan_id = nat

text \<open>
  Modelled from the spec: \<^verbatim>\<open>eth.BlockID\<close> is declared outside the sources; the spec
  describes an id as the pair of hash and number.
\<close>

record BlockID =
  id_Hash :: hash
  id_Number :: u64

text \<open>
  Modelled from the spec: the struct \<^verbatim>\<open>eth.L2BlockRef\<close> is declared in the package
  \<^verbatim>\<open>cp-service/eth\<close>, which is not among the sources. The spec gives a block reference the
  fields hash, number, parent hash and timestamp, and a local reference the base-layer origin
  and the sequence number in addition. Go compares structs field by field, which is the
  equality of the record.
\<close>

record L2BlockRef =
  Hash :: hash
  Number :: u64
  ParentHash :: hash
  Time :: u64
  L1Origin :: BlockID
  SequenceNumber :: u64

text \<open>The zero value \<^verbatim>\<open>eth.L2BlockRef{}\<close>.\<close>

definition zero_L2BlockRef :: L2BlockRef where
  "zero_L2BlockRef =
     \<lparr>Hash = 0, Number = 0, ParentHash = 0, Time = 0,
      L1Origin = \<lparr>id_Hash = 0, id_Number = 0\<rparr>, SequenceNumber = 0\<rparr>"

text \<open>
  Modelled from the spec: the method \<^verbatim>\<open>ID()\<close> of a block reference, declared with the
  struct; the spec describes an id as the pair of hash and number.
\<close>

definition ID :: "L2BlockRef \<Rightarrow> BlockID" where
  "ID r = \<lparr>id_Hash = Hash r, id_Number = Number r\<rparr>"


text \<open>
  \<^verbatim>\<open>eth.BlockInfo\<close> is an interface declared outside the sources; the driver calls its
  method \<^verbatim>\<open>NumberU64()\<close> only.
\<close>

record BlockInfo =
  NumberU64 :: u64

text \<open>Modelled from the spec: the option \<^verbatim>\<open>syncMode\<close> is one of CLSync and ELSync.\<close>

datatype Mode = CLSync | ELSync

subsection \<open>Errors\<close>

text \<open>
  Go errors as values. \<^verbatim>\<open>fmt.Errorf("...: %w", err)\<close> wraps an error and
  \<^verbatim>\<open>errors.Is\<close> follows the chain of wrapped errors.
\<close>

datatype error =
    NotFound
  | ContextCanceled
  | DeadlineExceeded
  | Failure string
  | Wrapped string error

fun errors_Is :: "error \<Rightarrow> error \<Rightarrow> bool" where
  "errors_Is (Wrapped m e) t = (Wrapped m e = t \<or> errors_Is e t)"
| "errors_Is e t = (e = t)"

text \<open>The test \<^verbatim>\<open>err != nil && errors.Is(err, ethereum.NotFound)\<close>.\<close>

definition is_NotFound :: "error option \<Rightarrow> bool" where
  "is_NotFound err = (case err of None \<Rightarrow> False | Some e \<Rightarrow> errors_Is e NotFound)"

subsection \<open>Events and effects\<close>

text \<open>
  The events the driver handles or emits; \<open>'p\<close> is the execution payload envelope, which
  the driver passes around without looking inside.
\<close>

datatype 'p event =
    StepEvent
  | StepReqEvent
  | StepAttemptEvent
  | ResetStepBackoffEvent
  | ResetEvent error
  | CriticalErrorEvent error
  | L1TemporaryErrorEvent error
  | EngineTemporaryErrorEvent error
  | EngineResetConfirmedEvent L2BlockRef
  | ResetEngineRequestEvent
  | ConfirmPipelineResetEvent
  | DeriverIdleEvent
  | DeriverMoreEvent
  | SafeDerivedEvent L2BlockRef
  | ProvideL1Traversal
  | TryBackupUnsafeReorgEvent
  | TryUpdateEngineEvent
  | PendingSafeRequestEvent
  | CrossUpdateRequestEvent
  | SequencerActionEvent
  | ReceivedUnsafePayloadEvent 'p
  | FinalizeL1Event
  | OtherEvent string

datatype log_level = Debug | Info | Warn | Error

text \<open>
  What a handler does to its collaborators, in the order in which it does it: log lines,
  events put on the bus, metrics, calls that change the engine, the derivation pipeline, the
  safe-head listener or the sync sources, and channel operations of the loop.
\<close>

datatype 'p effect =
    Log log_level string
  | Emit "'p event"
  | RecordReceivedUnsafePayload 'p
  | RecordPipelineReset
  | InsertUnsafePayload 'p L2BlockRef
  | RequestL2Range L2BlockRef L2BlockRef
  | PayloadsByRange int int
  | DerivationReset
  | SafeHeadReset L2BlockRef
  | SafeHeadUpdated L2BlockRef
  | DrainEvents
  | ChanSend chan_id
  | ChanClose chan_id

fun emitted :: "'p effect list \<Rightarrow> 'p event list" where
  "emitted [] = []"
| "emitted (Emit ev # es) = ev # emitted es"
| "emitted (e # es) = emitted es"

subsection \<open>The driver and its collaborators\<close>

text \<open>
  \<^verbatim>\<open>rollup.SafeHeadListener\<close> is an interface of three methods; a listener is given by
  what its methods answer.
\<close>

record SafeHeadListener =
  Enabled :: bool
  SafeHeadReset_result :: "L2BlockRef \<Rightarrow> error option"
  SafeHeadUpdated_result :: "L2BlockRef \<Rightarrow> error option"

text \<open>
  The fields of \<^verbatim>\<open>Driver\<close> and of the embedded \<^verbatim>\<open>SyncDeriver\<close> that the modelled
  functions read. A collaborator behind an interface (engine controller, CL-sync queue,
  alt-sync, the two chain clients, the payload decoder, the event drain) is given by the
  answers it returns during one run of a handler. \<^verbatim>\<open>maxBatchSize\<close> has the Go type
  \<^verbatim>\<open>uint\<close>, 64 bits wide on the platforms the node is built for. \<^verbatim>\<open>Drain\<close> is called up
  to three times by \<^verbatim>\<open>SyncStep\<close>; its answer is indexed by the call.
\<close>

record 'p Driver =
  SyncMode :: Mode
  ManagedMode :: bool
  InteropTime :: "u64 option"
  maxBatchSize :: u64
  Genesis_L2 :: BlockID
  SafeHeadNotifs :: "SafeHeadListener option"
  Engine_UnsafeL2Head :: L2BlockRef
  Engine_IsEngineSyncing :: bool
  Engine_InsertUnsafePayload :: "'p \<Rightarrow> L2BlockRef \<Rightarrow> error option"
  CLSync_LowestQueuedUnsafeBlock :: L2BlockRef
  altSync_RequestL2Range :: "L2BlockRef \<Rightarrow> L2BlockRef \<Rightarrow> error option"
  L2_GetLatestBlock :: "BlockInfo option \<times> error option"
  ELClient_GetLatestBlock :: "BlockInfo option \<times> error option"
  ELClient_PayloadsByRange :: "int \<Rightarrow> int \<Rightarrow> error + 'p list"
  derive_PayloadToBlockRef :: "'p \<Rightarrow> error + L2BlockRef"
  Drain :: "nat \<Rightarrow> error option"

section \<open>Range sync: clamp, syncUnsafeBlocks, checkSyncUnsafeBlocks\<close>

text \<open>
  \<^verbatim>\<open>big.Int.Uint64()\<close> returns the low 64 bits of the absolute value;
  \<^verbatim>\<open>big.NewInt(int64(x))\<close> reads the 64 bits of \<open>x\<close> as a signed number.
\<close>

definition big_Uint64 :: "int \<Rightarrow> u64" where
  "big_Uint64 x = word_of_int \<bar>x\<bar>"

definition big_NewInt :: "u64 \<Rightarrow> int" where
  "big_NewInt x = sint x"

text \<open>
  \<^verbatim>\<open>
  func clamp(start, end *big.Int, size uint64) *big.Int {
      temp := new(big.Int)
      count := temp.Sub(end, start).Uint64() + 1
      if count <= size { return end }
      temp.Add(start, big.NewInt(int64(size-1)))
      return temp
  }
  \<close>
  \<open>count\<close> and \<open>size - 1\<close> are computed on 64 bits and wrap around.
\<close>

definition clamp :: "int \<Rightarrow> int \<Rightarrow> u64 \<Rightarrow> int" where
  "clamp start end' sz =
     (let count = big_Uint64 (end' - start) + 1
      in if count \<le> sz then end' else start + big_NewInt (sz - 1))"

text \<open>
  The loop over the fetched payloads in \<^verbatim>\<open>checkSyncUnsafeBlocks\<close>: it returns at the
  first payload that cannot be decoded or inserted.
\<close>

fun checkSync_insert :: "'p Driver \<Rightarrow> 'p list \<Rightarrow> 'p effect list \<times> error option" where
  "checkSync_insert s [] = ([], None)"
| "checkSync_insert s (payload # rest) =
     (case derive_PayloadToBlockRef s payload of
        Inl err \<Rightarrow>
          ([Log Error ''Failed to turn execution payload into a block ref''], Some err)
      | Inr ref \<Rightarrow>
          (case Engine_InsertUnsafePayload s payload ref of
             Some err \<Rightarrow>
               ([InsertUnsafePayload payload ref,
                 Log Error ''Failed to insert unsafe payload for EL sync''], Some err)
           | None \<Rightarrow>
               (case checkSync_insert s rest of
                  (effs, r) \<Rightarrow> (InsertUnsafePayload payload ref # effs, r))))"

definition checkSyncUnsafeBlocks :: "'p Driver \<Rightarrow> 'p effect list \<times> error option" where
  "checkSyncUnsafeBlocks s =
     (case L2_GetLatestBlock s of (startBlock, err) \<Rightarrow>
      (if is_NotFound err then ([Log Error ''failed to get latest block by l2 geth''], err)
       else (case ELClient_GetLatestBlock s of (endBlock, err) \<Rightarrow>
       (if is_NotFound err then ([Log Error ''failed to get latest block by el geth''], err)
        else (case startBlock of None \<Rightarrow> ([], None) | Some sb \<Rightarrow>
             (case endBlock of None \<Rightarrow> ([], None) | Some eb \<Rightarrow>
        (if NumberU64 sb < NumberU64 eb - 5 then
          (let startHeight = big_NewInt (NumberU64 sb + 1);
               endHeight = clamp startHeight (big_NewInt (NumberU64 eb)) (maxBatchSize s)
           in (case ELClient_PayloadsByRange s startHeight endHeight of
                Inl err \<Rightarrow>
                  ([PayloadsByRange startHeight endHeight,
                    Log Error ''error querying blocks by range''], Some err)
              | Inr payloads \<Rightarrow>
                  (case checkSync_insert s payloads of
                     (effs, Some err) \<Rightarrow>
                       (PayloadsByRange startHeight endHeight # effs, Some err)
                   | (effs, None) \<Rightarrow>
                       (PayloadsByRange startHeight endHeight # effs
                          @ [Log Info ''successfully synchronized a batch of blocks''],
                        None))))
         else ([], None))))))))"

text \<open>
  The loop over the fetched payloads in \<^verbatim>\<open>syncUnsafeBlocks\<close>: a payload that fails is
  logged and the loop goes on with the next one.
\<close>

fun syncUnsafe_insert :: "'p Driver \<Rightarrow> 'p list \<Rightarrow> 'p effect list" where
  "syncUnsafe_insert s [] = []"
| "syncUnsafe_insert s (payload # rest) =
     (case derive_PayloadToBlockRef s payload of
        Inl err \<Rightarrow>
          Log Error ''Failed to turn execution payload into a block ref''
            # syncUnsafe_insert s rest
      | Inr ref \<Rightarrow>
          (case Engine_InsertUnsafePayload s payload ref of
             Some err \<Rightarrow>
               InsertUnsafePayload payload ref
                 # Log Error ''Failed to insert unsafe payload for EL sync''
                 # syncUnsafe_insert s rest
           | None \<Rightarrow> InsertUnsafePayload payload ref # syncUnsafe_insert s rest))"

text \<open>
  One tick of the ticker loop of \<^verbatim>\<open>syncUnsafeBlocks\<close>. The body goes on with the next
  tick (\<^verbatim>\<open>continue\<close>, or the end of the body), returns, or panics: the block returned with
  an error other than NotFound is used without a nil check.
\<close>

datatype tick_ctl = NextTick | Return | Panic

definition syncUnsafeBlocks_tick :: "'p Driver \<Rightarrow> 'p effect list \<times> tick_ctl" where
  "syncUnsafeBlocks_tick s =
     (case L2_GetLatestBlock s of (startBlock, err) \<Rightarrow>
      (if is_NotFound err
       then ([Log Error ''failed to get latest block by l2 geth''], NextTick)
       else (case ELClient_GetLatestBlock s of (endBlock, err) \<Rightarrow>
       (if is_NotFound err
        then ([Log Error ''failed to get latest block by el geth''], NextTick)
        else (case startBlock of None \<Rightarrow> ([], Panic) | Some sb \<Rightarrow>
             (case endBlock of None \<Rightarrow> ([], Panic) | Some eb \<Rightarrow>
          (let startHeight = big_NewInt (NumberU64 sb + 1);
               endHeight = clamp startHeight (big_NewInt (NumberU64 eb)) (maxBatchSize s)
           in (if startHeight \<ge> endHeight
               then ([Log Info ''successfully synchronized all old blocks''], Return)
               else (case ELClient_PayloadsByRange s startHeight endHeight of
                  Inl err \<Rightarrow>
                    ([PayloadsByRange startHeight endHeight,
                      Log Error ''error querying blocks by range''], NextTick)
                | Inr payloads \<Rightarrow>
                    (PayloadsByRange startHeight endHeight # syncUnsafe_insert s payloads
                       @ [Log Info ''successfully synchronized a batch of blocks''],
                     NextTick))))))))))"

text \<open>
  The ticker loop itself, run on the states of the collaborators at the successive ticks.
  \<open>None\<close> is the loop still waiting for a tick when the list ends.
\<close>

fun syncUnsafeBlocks :: "'p Driver list \<Rightarrow> 'p effect list \<times> tick_ctl option" where
  "syncUnsafeBlocks [] = ([], None)"
| "syncUnsafeBlocks (s # ticks) =
     (case syncUnsafeBlocks_tick s of
        (effs, NextTick) \<Rightarrow>
          (case syncUnsafeBlocks ticks of (effs', r) \<Rightarrow> (effs @ effs', r))
      | (effs, ctl) \<Rightarrow> (effs, Some ctl))"

section \<open>Gap detection in the unsafe payload queue\<close>

text \<open>
  \<^verbatim>\<open>
  start := s.Engine.UnsafeL2Head()
  end := s.CLSync.LowestQueuedUnsafeBlock()
  if end == (eth.L2BlockRef{}) {
      return s.altSync.RequestL2Range(ctx, start, eth.L2BlockRef{})
  } else if end.Number > start.Number+1 {
      return s.altSync.RequestL2Range(ctx, start, end)
  }
  return nil
  \<close>
  The numbers are \<^verbatim>\<open>uint64\<close>; \<open>start.Number + 1\<close> wraps around.
\<close>

definition checkForGapInUnsafeQueue :: "'p Driver \<Rightarrow> 'p effect list \<times> error option" where
  "checkForGapInUnsafeQueue s =
     (let start = Engine_UnsafeL2Head s;
          end' = CLSync_LowestQueuedUnsafeBlock s
      in if end' = zero_L2BlockRef
         then ([Log Debug ''requesting sync with open-end range'',
                RequestL2Range start zero_L2BlockRef],
               altSync_RequestL2Range s start zero_L2BlockRef)
         else if Number end' > Number start + 1
         then ([Log Debug ''requesting missing unsafe core block range'',
                RequestL2Range start end'],
               altSync_RequestL2Range s start end')
         else ([], None))"

text \<open>The range requests among the effects of a handler.\<close>

fun range_requests :: "'p effect list \<Rightarrow> (L2BlockRef \<times> L2BlockRef) list" where
  "range_requests [] = []"
| "range_requests (RequestL2Range a b # es) = (a, b) # range_requests es"
| "range_requests (e # es) = range_requests es"

section \<open>The sync deriver\<close>

definition onResetEvent :: "'p Driver \<Rightarrow> error \<Rightarrow> 'p effect list" where
  "onResetEvent s err =
     (if ManagedMode s
      then [Log Warn ''Encountered reset in Managed Mode, waiting for cp-supervisor'']
      else [Log Warn ''Deriver system is resetting'',
            Emit StepReqEvent, Emit ResetEngineRequestEvent])"

text \<open>
  \<^verbatim>\<open>onEngineConfirmedReset\<close>: with a listener, \<^verbatim>\<open>SafeHeadReset\<close> is called first and,
  if the listener is enabled and the cross-safe head is the genesis block of the local chain,
  \<^verbatim>\<open>SafeHeadUpdated\<close> after it; the handler returns at the first call that fails.
\<close>

definition onEngineConfirmedReset :: "'p Driver \<Rightarrow> L2BlockRef \<Rightarrow> 'p effect list" where
  "onEngineConfirmedReset s crossSafe =
     (let confirm = [Log Info ''Confirming pipeline reset'', Emit ConfirmPipelineResetEvent]
      in case SafeHeadNotifs s of
           None \<Rightarrow> confirm
         | Some l \<Rightarrow>
             (case SafeHeadReset_result l crossSafe of
                Some err \<Rightarrow>
                  [SafeHeadReset crossSafe,
                   Log Error ''Failed to warn safe-head notifier of safe-head reset'']
              | None \<Rightarrow>
                  if Enabled l \<and> ID crossSafe = Genesis_L2 s
                  then (case SafeHeadUpdated_result l crossSafe of
                          Some err \<Rightarrow>
                            [SafeHeadReset crossSafe, SafeHeadUpdated crossSafe,
                             Log Error ''Failed to notify safe-head listener of safe-head'']
                        | None \<Rightarrow>
                            SafeHeadReset crossSafe # SafeHeadUpdated crossSafe # confirm)
                  else SafeHeadReset crossSafe # confirm))"

definition onSafeDerivedBlock :: "'p Driver \<Rightarrow> L2BlockRef \<Rightarrow> 'p effect list" where
  "onSafeDerivedBlock s safe =
     (case SafeHeadNotifs s of
        None \<Rightarrow> []
      | Some l \<Rightarrow>
          if Enabled l
          then (case SafeHeadUpdated_result l safe of
                  Some err \<Rightarrow>
                    [SafeHeadUpdated safe,
                     Emit (ResetEvent (Wrapped ''safe head notifications failed'' err))]
                | None \<Rightarrow> [SafeHeadUpdated safe])
          else [])"

text \<open>
  The closure \<^verbatim>\<open>drain\<close> of \<^verbatim>\<open>SyncStep\<close>, at its \<open>n\<close>-th call: the effects and
  whether the step may go on.
\<close>

definition SyncStep_drain :: "'p Driver \<Rightarrow> nat \<Rightarrow> 'p effect list \<times> bool" where
  "SyncStep_drain s n =
     (case Drain s n of
        None \<Rightarrow> ([DrainEvents], True)
      | Some err \<Rightarrow>
          if errors_Is err ContextCanceled then ([DrainEvents], False)
          else ([DrainEvents,
                 Emit (CriticalErrorEvent
                   (Wrapped ''unexpected error on SyncStep event Drain'' err))], False))"

definition SyncStep :: "'p Driver \<Rightarrow> 'p effect list" where
  "SyncStep s =
     Log Debug ''Sync process step'' #
     (case SyncStep_drain s 0 of
        (d0, False) \<Rightarrow> d0
      | (d0, True) \<Rightarrow> d0 @ Emit TryBackupUnsafeReorgEvent #
     (case SyncStep_drain s 1 of
        (d1, False) \<Rightarrow> d1
      | (d1, True) \<Rightarrow> d1 @ Emit TryUpdateEngineEvent #
     (case SyncStep_drain s 2 of
        (d2, False) \<Rightarrow> d2
      | (d2, True) \<Rightarrow> d2 @
     (if Engine_IsEngineSyncing s
      then [Log Debug
              ''Rollup driver is backing off because execution engine is syncing.'',
            Emit ResetStepBackoffEvent]
      else Emit PendingSafeRequestEvent #
           (if InteropTime s \<noteq> None \<and> \<not> ManagedMode s
            then [Emit CrossUpdateRequestEvent] else [])))))"

text \<open>\<^verbatim>\<open>OnEvent\<close>: the effects of the handler and whether the event was handled.\<close>

fun OnEvent :: "'p Driver \<Rightarrow> 'p event \<Rightarrow> 'p effect list \<times> bool" where
  "OnEvent s StepEvent = (SyncStep s, True)"
| "OnEvent s (ResetEvent err) = (onResetEvent s err, True)"
| "OnEvent s (L1TemporaryErrorEvent err) =
     ([Log Warn ''L1 temporary error'', Emit StepReqEvent], True)"
| "OnEvent s (EngineTemporaryErrorEvent err) =
     ([Log Warn ''Engine temporary error'', Emit StepReqEvent], True)"
| "OnEvent s (EngineResetConfirmedEvent crossSafe) = (onEngineConfirmedReset s crossSafe, True)"
| "OnEvent s DeriverIdleEvent = ([Emit ResetStepBackoffEvent], True)"
| "OnEvent s DeriverMoreEvent = ([], True)"
| "OnEvent s (SafeDerivedEvent safe) = (onSafeDerivedBlock s safe, True)"
| "OnEvent s ProvideL1Traversal = ([Emit StepReqEvent], True)"
| "OnEvent s ev = ([], False)"

section \<open>The select statement of the driver loop\<close>

text \<open>
  The cases of the \<^verbatim>\<open>select\<close> in \<^verbatim>\<open>eventLoop\<close>, in the order of the source. A case that
  receives a value carries it: the payload envelope, or the response channel of a state
  request or of a force reset.
\<close>

datatype 'p select_case =
    Case_sequencerCh
  | Case_altSyncTicker
  | Case_unsafeL2Payloads 'p
  | Case_NextDelayedStep
  | Case_NextStep
  | Case_stateReq chan_id
  | Case_forceReset chan_id
  | Case_driverCtxDone

datatype loop_ctl = NextIteration | LoopReturn

text \<open>
  What the loop does once the \<^verbatim>\<open>select\<close> has taken a case, up to the point where it
  goes back to the top of the loop (at the end of the case, or by \<^verbatim>\<open>continue\<close>) or returns.
\<close>

fun eventLoop_select :: "'p Driver \<Rightarrow> 'p select_case \<Rightarrow> 'p effect list \<times> loop_ctl" where
  "eventLoop_select s Case_sequencerCh = ([Emit SequencerActionEvent], NextIteration)"
| "eventLoop_select s Case_altSyncTicker =
     (if SyncMode s = CLSync
      then (case checkForGapInUnsafeQueue s of
              (effs, Some err) \<Rightarrow>
                (effs @ [Log Warn ''failed to check for unsafe core blocks to sync''],
                 NextIteration)
            | (effs, None) \<Rightarrow> (effs, NextIteration))
      else (case checkSyncUnsafeBlocks s of
              (effs, Some err) \<Rightarrow>
                (effs @ [Log Warn ''failed to check sync unsafe blocks''], NextIteration)
            | (effs, None) \<Rightarrow> (effs, NextIteration)))"
| "eventLoop_select s (Case_unsafeL2Payloads envelope) =
     (if SyncMode s = CLSync \<or> \<not> Engine_IsEngineSyncing s
      then ([Log Info ''Optimistically queueing unsafe core execution payload'',
             Emit (ReceivedUnsafePayloadEvent envelope),
             RecordReceivedUnsafePayload envelope,
             Emit StepReqEvent], NextIteration)
      else if SyncMode s = ELSync
      then (case derive_PayloadToBlockRef s envelope of
              Inl err \<Rightarrow>
                ([Log Info ''Failed to turn execution payload into a block ref''],
                 NextIteration)
            | Inr ref \<Rightarrow>
                if Number ref \<le> Number (Engine_UnsafeL2Head s) then ([], NextIteration)
                else (case Engine_InsertUnsafePayload s envelope ref of
                        Some err \<Rightarrow>
                          ([Log Info
                              ''Optimistically inserting unsafe core execution payload to drive EL sync'',
                            InsertUnsafePayload envelope ref,
                            Log Warn ''Failed to insert unsafe payload for EL sync''],
                           NextIteration)
                      | None \<Rightarrow>
                          ([Log Info
                              ''Optimistically inserting unsafe core execution payload to drive EL sync'',
                            InsertUnsafePayload envelope ref], NextIteration)))
      else ([], NextIteration))"
| "eventLoop_select s Case_NextDelayedStep = ([Emit StepAttemptEvent], NextIteration)"
| "eventLoop_select s Case_NextStep = ([Emit StepAttemptEvent], NextIteration)"
| "eventLoop_select s (Case_stateReq respCh) = ([ChanSend respCh], NextIteration)"
| "eventLoop_select s (Case_forceReset respCh) =
     ([Log Warn ''Derivation pipeline is manually reset'',
       DerivationReset, RecordPipelineReset, ChanClose respCh], NextIteration)"
| "eventLoop_select s Case_driverCtxDone = ([], LoopReturn)"

section \<open>Observations on effect lists and scenarios\<close>

text \<open>The range fetches and the payload insertions among the effects of a handler.\<close>

fun fetches :: "'p effect list \<Rightarrow> (int \<times> int) list" where
  "fetches [] = []"
| "fetches (PayloadsByRange a b # es) = (a, b) # fetches es"
| "fetches (e # es) = fetches es"

fun inserts :: "'p effect list \<Rightarrow> ('p \<times> L2BlockRef) list" where
  "inserts [] = []"
| "inserts (InsertUnsafePayload p r # es) = (p, r) # inserts es"
| "inserts (e # es) = inserts es"

text \<open>
  Concrete drivers for the scenarios of the spec. A payload is identified by its block
  number. \<open>scenario_driver\<close> is a CL-sync verifier with unsafe head 200 and lowest queued
  payload 205 (scenario S2); its chain clients report the heads 500 and 520 with batches of at
  most 8 blocks (scenario S6). The range fetch answers with the first two payloads of the
  range.
\<close>

definition scenario_block :: "u64 \<Rightarrow> L2BlockRef" where
  "scenario_block n =
     \<lparr>Hash = ucast n + 4096, Number = n, ParentHash = ucast n + 4095, Time = 2 * n,
      L1Origin = \<lparr>id_Hash = 7, id_Number = 1\<rparr>, SequenceNumber = n\<rparr>"

definition scenario_driver :: "nat Driver" where
  "scenario_driver =
     \<lparr>SyncMode = CLSync, ManagedMode = False, InteropTime = None, maxBatchSize = 8,
      Genesis_L2 = ID (scenario_block 0), SafeHeadNotifs = None,
      Engine_UnsafeL2Head = scenario_block 200, Engine_IsEngineSyncing = False,
      Engine_InsertUnsafePayload = (\<lambda>p r. None),
      CLSync_LowestQueuedUnsafeBlock = scenario_block 205,
      altSync_RequestL2Range = (\<lambda>a b. None),
      L2_GetLatestBlock = (Some \<lparr>NumberU64 = 500\<rparr>, None),
      ELClient_GetLatestBlock = (Some \<lparr>NumberU64 = 520\<rparr>, None),
      ELClient_PayloadsByRange = (\<lambda>a b. Inr (map nat [a, a + 1])),
      derive_PayloadToBlockRef = (\<lambda>p. Inr (scenario_block (of_nat p))),
      Drain = (\<lambda>n. None)\<rparr>"

text \<open>The queue holds a payload below the unsafe head.\<close>

definition scenario_stale_queue :: "nat Driver" where
  "scenario_stale_queue =
     scenario_driver\<lparr>CLSync_LowestQueuedUnsafeBlock := scenario_block 150\<rparr>"

text \<open>The same node in EL-sync mode while the engine is syncing.\<close>

definition scenario_elsync :: "nat Driver" where
  "scenario_elsync = scenario_driver\<lparr>SyncMode := ELSync, Engine_IsEngineSyncing := True\<rparr>"

text \<open>EL sync against an execution client that is at block 3 while the local head is 10.\<close>

definition scenario_el_behind :: "nat Driver" where
  "scenario_el_behind =
     scenario_elsync\<lparr>L2_GetLatestBlock := (Some \<lparr>NumberU64 = 10\<rparr>, None),
                     ELClient_GetLatestBlock := (Some \<lparr>NumberU64 = 3\<rparr>, None),
                     maxBatchSize := 5\<rparr>"

text \<open>The local head is at 20 while the execution client is at block 10.\<close>

definition scenario_local_ahead :: "nat Driver" where
  "scenario_local_ahead =
     scenario_driver\<lparr>L2_GetLatestBlock := (Some \<lparr>NumberU64 = 20\<rparr>, None),
                     ELClient_GetLatestBlock := (Some \<lparr>NumberU64 = 10\<rparr>, None),
                     maxBatchSize := 5\<rparr>"

text \<open>A safe-head listener that is enabled and accepts every call.\<close>

definition scenario_listener :: "nat Driver" where
  "scenario_listener =
     scenario_driver\<lparr>SafeHeadNotifs :=
       Some \<lparr>Enabled = True, SafeHeadReset_result = (\<lambda>r. None),
             SafeHeadUpdated_result = (\<lambda>r. None)\<rparr>\<rparr>"

section \<open>Force reset: the caller and the loop\<close>

text \<open>
  \<^verbatim>\<open>ResetDerivationPipeline\<close> runs in the goroutine of its caller and talks to the loop
  over channels, so the two are modelled as one system that moves in steps; a schedule (a list
  of actions) picks the next step. A channel of response channels carries channel identities.
  \<^verbatim>\<open>NewDriver\<close> creates \<^verbatim>\<open>forceReset\<close> with \<^verbatim>\<open>make(chan chan struct{}, 10)\<close>: a send
  goes through while fewer than ten requests are buffered, and the loop receives the oldest
  request. Nothing is ever sent on the response channel, so a receive from it goes through
  once the loop has closed it.
\<close>

definition forceReset_capacity :: nat where
  "forceReset_capacity = 10"

text \<open>Where the caller stands: at the outer select, at the inner select, or returned.\<close>

datatype rdp_pc = AtOuterSelect | AtInnerSelect | Returned "error option"

record 'p reset_world =
  forceReset :: "chan_id list"
  ctx_Err :: "error option"
  caller :: rdp_pc
  loop_trace :: "'p effect list"

datatype rdp_case = Take_ctxDone | Take_send | Take_recv

text \<open>
  \<^verbatim>\<open>
  respCh := make(chan struct{}, 1)
  select {
  case <-ctx.Done():
      return ctx.Err()
  case s.forceReset <- respCh:
      select {
      case <-ctx.Done():
          return ctx.Err()
      case <-respCh:
          return nil
      }
  }
  \<close>
  One step of the caller: the select at which it stands takes the given case, if that case
  is ready; \<open>None\<close> if it is not.
\<close>

definition ResetDerivationPipeline ::
  "chan_id \<Rightarrow> rdp_case \<Rightarrow> 'p reset_world \<Rightarrow> 'p reset_world option" where
  "ResetDerivationPipeline respCh c w =
     (case caller w of
        AtOuterSelect \<Rightarrow>
          (case c of
             Take_ctxDone \<Rightarrow>
               (case ctx_Err w of
                  None \<Rightarrow> None
                | Some e \<Rightarrow> Some (w\<lparr>caller := Returned (Some e)\<rparr>))
           | Take_send \<Rightarrow>
               if length (forceReset w) < forceReset_capacity
               then Some (w\<lparr>forceReset := forceReset w @ [respCh], caller := AtInnerSelect\<rparr>)
               else None
           | Take_recv \<Rightarrow> None)
      | AtInnerSelect \<Rightarrow>
          (case c of
             Take_ctxDone \<Rightarrow>
               (case ctx_Err w of
                  None \<Rightarrow> None
                | Some e \<Rightarrow> Some (w\<lparr>caller := Returned (Some e)\<rparr>))
           | Take_recv \<Rightarrow>
               if ChanClose respCh \<in> set (loop_trace w)
               then Some (w\<lparr>caller := Returned None\<rparr>)
               else None
           | Take_send \<Rightarrow> None)
      | Returned r \<Rightarrow> None)"

text \<open>
  The loop takes the case \<^verbatim>\<open>respCh := <-s.forceReset\<close>: it receives the oldest request
  and runs the case to its end.
\<close>

definition eventLoop_forceReset :: "'p Driver \<Rightarrow> 'p reset_world \<Rightarrow> 'p reset_world option" where
  "eventLoop_forceReset s w =
     (case forceReset w of
        [] \<Rightarrow> None
      | respCh # rest \<Rightarrow>
          Some (w\<lparr>forceReset := rest,
                  loop_trace := loop_trace w @ fst (eventLoop_select s (Case_forceReset respCh))\<rparr>))"

text \<open>
  The actions of the system: the context of the caller is cancelled or expires (the first
  error stays), the caller takes a case of its select, the loop serves the channel, or
  another caller puts its own, different response channel into the channel.
\<close>

datatype reset_action = Cancel error | Caller rdp_case | Loop_forceReset | Other_request chan_id

definition reset_step ::
  "'p Driver \<Rightarrow> chan_id \<Rightarrow> reset_action \<Rightarrow> 'p reset_world \<Rightarrow> 'p reset_world option" where
  "reset_step s respCh a w =
     (case a of
        Cancel e \<Rightarrow>
          (case ctx_Err w of None \<Rightarrow> Some (w\<lparr>ctx_Err := Some e\<rparr>) | Some e' \<Rightarrow> Some w)
      | Caller c \<Rightarrow> ResetDerivationPipeline respCh c w
      | Loop_forceReset \<Rightarrow> eventLoop_forceReset s w
      | Other_request r \<Rightarrow>
          if r \<noteq> respCh \<and> length (forceReset w) < forceReset_capacity
          then Some (w\<lparr>forceReset := forceReset w @ [r]\<rparr>)
          else None)"

fun reset_run ::
  "'p Driver \<Rightarrow> chan_id \<Rightarrow> reset_action list \<Rightarrow> 'p reset_world \<Rightarrow> 'p reset_world option" where
  "reset_run s respCh [] w = Some w"
| "reset_run s respCh (a # as) w =
     (case reset_step s respCh a w of
        None \<Rightarrow> None
      | Some w' \<Rightarrow> reset_run s respCh as w')"

text \<open>
  The call starts at the outer select with a live context; \<open>q\<close> are the requests of other
  callers that wait in the channel.
\<close>

definition reset_world0 :: "chan_id list \<Rightarrow> 'p reset_world" where
  "reset_world0 q = \<lparr>forceReset = q, ctx_Err = None, caller = AtOuterSelect, loop_trace = []\<rparr>"

text \<open>What the loop does for one request, and the invariants of the system.\<close>

definition reset_block :: "chan_id \<Rightarrow> 'p effect list" where
  "reset_block r =
     [Log Warn ''Derivation pipeline is manually reset'',
      DerivationReset, RecordPipelineReset, ChanClose r]"

definition blocks_only :: "'p effect list \<Rightarrow> bool" where
  "blocks_only t =
     (\<forall>r. ChanClose r \<in> set t \<longrightarrow> (\<exists>pre post. t = pre @ reset_block r @ post))"

definition reset_inv :: "chan_id \<Rightarrow> 'p reset_world \<Rightarrow> bool" where
  "reset_inv c w =
     (blocks_only (loop_trace w)
      \<and> (caller w = Returned None \<longrightarrow> ChanClose c \<in> set (loop_trace w))
      \<and> (\<forall>e. caller w = Returned (Some e) \<longrightarrow> ctx_Err w = Some e)
      \<and> (caller w \<noteq> AtOuterSelect \<longrightarrow>
            c \<in> set (forceReset w) \<or> ChanClose c \<in> set (loop_trace w)
            \<or> (\<exists>e. caller w = Returned (Some e)))
      \<and> (caller w = AtOuterSelect \<longrightarrow> c \<notin> set (forceReset w)))"

section \<open>State requests: BlockRefWithStatus and the loop\<close>















section \<open>Arithmetic of heights\<close>

lemma uint64_small: "0 \<le> d \<Longrightarrow> d < 2 ^ 64 \<Longrightarrow> uint (word_of_int d :: u64) = d"
  by (simp add: uint_word_of_int take_bit_int_eq_self)

lemma sint64_small:
  assumes "uint w < 2 ^ 63"
  shows "sint (w::u64) = uint w"
proof -
  have "- (2 ^ 63) \<le> uint w" by (rule order_trans [of _ 0]) simp_all
  then have "signed_take_bit 63 (uint w) = uint w"
    using assms by (rule signed_take_bit_int_eq_self)
  then show ?thesis by (simp add: sint_uint)
qed

lemma count_exact:
  assumes "0 \<le> d" "d < 2 ^ 63"
  shows "uint (big_Uint64 d + 1) = d + 1"
proof -
  have "uint (word_of_int d :: u64) = d" using assms by (simp add: uint64_small)
  then have "uint ((word_of_int d :: u64) + 1) = (d + 1) mod 2 ^ 64"
    by (simp add: uint_word_ariths)
  also have "\<dots> = d + 1" using assms by simp
  finally show ?thesis using assms by (simp add: big_Uint64_def)
qed

lemma uint_pred:
  assumes "1 \<le> (sz::u64)"
  shows "uint (sz - 1) = uint sz - 1"
proof -
  have "uint (1::u64) \<le> uint sz" using assms by (simp add: word_le_def)
  then show ?thesis by (simp add: uint_sub_lem [THEN iffD1])
qed

lemma mod_neg_shift:
  fixes x m :: int
  assumes "- m \<le> x" "x < 0"
  shows "x mod m = x + m"
proof -
  have "(x + m) mod m = x mod m" by (simp only: mod_add_self2)
  moreover have "(x + m) mod m = x + m"
    using assms by (intro mod_pos_pos_trivial) simp_all
  ultimately show ?thesis by simp
qed

lemma sub5: "uint ((x::u64) - 5) = (uint x - 5) mod 2 ^ 64"
  by (simp add: uint_word_ariths)

text \<open>
  As long as the distance from \<open>start\<close> to \<open>end'\<close> stays below \<open>2 ^ 63\<close>, neither the
  64-bit count nor the signed reading of \<open>sz - 1\<close> wraps, and \<open>clamp\<close> is a minimum.
\<close>

lemma clamp_min:
  assumes "start \<le> end'" "end' - start < 2 ^ 63" "1 \<le> sz"
  shows "clamp start end' sz = min (start + uint sz - 1) end'"
proof -
  let ?d = "end' - start"
  have d: "0 \<le> ?d" "?d < 2 ^ 63" using assms by simp_all
  have c: "uint (big_Uint64 ?d + 1) = ?d + 1" by (rule count_exact [OF d])
  show ?thesis
  proof (cases "big_Uint64 ?d + 1 \<le> sz")
    case True
    then have "?d + 1 \<le> uint sz" using c by (simp add: word_le_def)
    with True show ?thesis by (simp add: clamp_def Let_def)
  next
    case False
    then have lt: "uint sz < ?d + 1" using c by (simp add: word_le_def)
    have p: "uint (sz - 1) = uint sz - 1" by (rule uint_pred [OF assms(3)])
    have "uint (sz - 1) < 2 ^ 63" using lt d p by simp
    then have "sint (sz - 1) = uint sz - 1" using p by (simp add: sint64_small)
    with False lt show ?thesis by (simp add: clamp_def Let_def big_NewInt_def)
  qed
qed

text \<open>
  Where \<open>start\<close> is above \<open>end'\<close> the count is taken from the absolute value of the
  difference, and \<open>clamp\<close> is not a minimum: with the local head at 20, the head of the
  execution client at 10 and batches of 5 the end of the range is 25.
\<close>

lemma clamp_start_above_end: "clamp 21 10 5 = 25"
  by (simp add: clamp_def big_Uint64_def big_NewInt_def)

text \<open>The heights that the sync functions build from two head numbers.\<close>

lemma heights_of_heads:
  assumes "(a::u64) < b" "uint b < 2 ^ 63"
  shows "big_NewInt (a + 1) = uint a + 1" "big_NewInt b = uint b"
proof -
  have ab: "uint a < uint b" using assms(1) by (simp add: word_less_def)
  have "uint (a + 1) = (uint a + 1) mod 2 ^ 64" by (simp add: uint_word_ariths)
  also have "\<dots> = uint a + 1" using ab assms(2) by simp
  finally have u: "uint (a + 1) = uint a + 1" .
  then have "uint (a + 1) < 2 ^ 63" using ab assms(2) by simp
  then show "big_NewInt (a + 1) = uint a + 1"
    using u by (simp add: big_NewInt_def sint64_small)
  show "big_NewInt b = uint b" using assms(2) by (simp add: big_NewInt_def sint64_small)
qed

section \<open>Effects of the sync functions\<close>

lemma fetches_append [simp]: "fetches (xs @ ys) = fetches xs @ fetches ys"
  by (induction xs rule: fetches.induct) simp_all

lemma inserts_append [simp]: "inserts (xs @ ys) = inserts xs @ inserts ys"
  by (induction xs rule: inserts.induct) simp_all

lemma emitted_append [simp]: "emitted (xs @ ys) = emitted xs @ emitted ys"
  by (induction xs rule: emitted.induct) simp_all

lemma fetches_checkSync_insert [simp]: "fetches (fst (checkSync_insert s ps)) = []"
  by (induction ps) (auto split: sum.splits option.splits prod.splits)

lemma fetches_checkSync_insert_eq [simp]:
  "checkSync_insert s ps = (effs, r) \<Longrightarrow> fetches effs = []"
  using fetches_checkSync_insert [of s ps] by simp

lemma fetches_syncUnsafe_insert [simp]: "fetches (syncUnsafe_insert s ps) = []"
  by (induction ps) (auto split: sum.splits option.splits)

lemma emitted_checkSync_insert [simp]: "emitted (fst (checkSync_insert s ps)) = []"
  by (induction ps) (auto split: sum.splits option.splits prod.splits)

lemma emitted_checkSync_insert_eq [simp]:
  "checkSync_insert s ps = (effs, r) \<Longrightarrow> emitted effs = []"
  using emitted_checkSync_insert [of s ps] by simp

lemma emitted_checkSyncUnsafeBlocks [simp]: "emitted (fst (checkSyncUnsafeBlocks s)) = []"
  by (simp add: checkSyncUnsafeBlocks_def Let_def split: sum.splits prod.splits option.splits)

lemma emitted_checkForGap [simp]: "emitted (fst (checkForGapInUnsafeQueue s)) = []"
  by (simp add: checkForGapInUnsafeQueue_def Let_def)

lemma emitted_altSync [simp]: "emitted (fst (eventLoop_select s Case_altSyncTicker)) = []"
proof (cases "SyncMode s = CLSync")
  case True
  then show ?thesis
    using emitted_checkForGap [of s]
    by (cases "checkForGapInUnsafeQueue s") (auto split: option.splits)
next
  case False
  then show ?thesis
    using emitted_checkSyncUnsafeBlocks [of s]
    by (cases "checkSyncUnsafeBlocks s") (auto split: option.splits)
qed

lemma checkSync_insert_all:
  assumes "\<forall>p \<in> set ps. \<exists>r. derive_PayloadToBlockRef s p = Inr r
                           \<and> Engine_InsertUnsafePayload s p r = None"
  shows "snd (checkSync_insert s ps) = None
       \<and> map fst (inserts (fst (checkSync_insert s ps))) = ps"
  using assms by (induction ps) (auto split: prod.splits)

lemma checkSync_quiet:
  assumes "L2_GetLatestBlock s = (Some sb, e1)" "\<not> is_NotFound e1"
    and "ELClient_GetLatestBlock s = (Some eb, e2)" "\<not> is_NotFound e2"
    and "\<not> NumberU64 sb < NumberU64 eb - 5"
  shows "checkSyncUnsafeBlocks s = ([], None)"
  using assms by (simp add: checkSyncUnsafeBlocks_def)

lemma checkSync_fetch:
  assumes "L2_GetLatestBlock s = (Some sb, e1)" "\<not> is_NotFound e1"
    and "ELClient_GetLatestBlock s = (Some eb, e2)" "\<not> is_NotFound e2"
    and "NumberU64 sb < NumberU64 eb - 5"
  shows "fetches (fst (checkSyncUnsafeBlocks s)) =
           [(big_NewInt (NumberU64 sb + 1),
             clamp (big_NewInt (NumberU64 sb + 1)) (big_NewInt (NumberU64 eb))
               (maxBatchSize s))]"
  using assms
  by (simp add: checkSyncUnsafeBlocks_def Let_def split: sum.splits prod.splits option.splits)

lemma checkSync_inserts:
  assumes "L2_GetLatestBlock s = (Some sb, e1)" "\<not> is_NotFound e1"
    and "ELClient_GetLatestBlock s = (Some eb, e2)" "\<not> is_NotFound e2"
    and "NumberU64 sb < NumberU64 eb - 5"
    and "ELClient_PayloadsByRange s (big_NewInt (NumberU64 sb + 1))
           (clamp (big_NewInt (NumberU64 sb + 1)) (big_NewInt (NumberU64 eb))
              (maxBatchSize s)) = Inr ps"
    and "\<forall>p \<in> set ps. \<exists>r. derive_PayloadToBlockRef s p = Inr r
                           \<and> Engine_InsertUnsafePayload s p r = None"
  shows "map fst (inserts (fst (checkSyncUnsafeBlocks s))) = ps"
proof -
  obtain effs where e: "checkSync_insert s ps = (effs, None)" "map fst (inserts effs) = ps"
    using checkSync_insert_all [OF assms(7)] by (cases "checkSync_insert s ps") auto
  show ?thesis using assms(1-6) e by (simp add: checkSyncUnsafeBlocks_def Let_def)
qed

lemma fetches_tick_eq:
  assumes "L2_GetLatestBlock s = (Some sb, e1)" "\<not> is_NotFound e1"
    and "ELClient_GetLatestBlock s = (Some eb, e2)" "\<not> is_NotFound e2"
  shows "fetches (fst (syncUnsafeBlocks_tick s)) =
           (if big_NewInt (NumberU64 sb + 1)
                 < clamp (big_NewInt (NumberU64 sb + 1)) (big_NewInt (NumberU64 eb))
                     (maxBatchSize s)
            then [(big_NewInt (NumberU64 sb + 1),
                   clamp (big_NewInt (NumberU64 sb + 1)) (big_NewInt (NumberU64 eb))
                     (maxBatchSize s))]
            else [])"
  using assms by (simp add: syncUnsafeBlocks_tick_def Let_def not_less split: sum.splits)

lemma fetches_check_eq:
  assumes "L2_GetLatestBlock s = (Some sb, e1)" "\<not> is_NotFound e1"
    and "ELClient_GetLatestBlock s = (Some eb, e2)" "\<not> is_NotFound e2"
  shows "fetches (fst (checkSyncUnsafeBlocks s)) =
           (if uint (NumberU64 sb) < (uint (NumberU64 eb) - 5) mod 2 ^ 64
            then [(big_NewInt (NumberU64 sb + 1),
                   clamp (big_NewInt (NumberU64 sb + 1)) (big_NewInt (NumberU64 eb))
                     (maxBatchSize s))]
            else [])"
proof -
  have c: "(NumberU64 sb < NumberU64 eb - 5) =
             (uint (NumberU64 sb) < (uint (NumberU64 eb) - 5) mod 2 ^ 64)"
    by (simp add: word_less_def sub5)
  show ?thesis
  proof (cases "NumberU64 sb < NumberU64 eb - 5")
    case True
    then show ?thesis using checkSync_fetch [OF assms True] c by simp
  next
    case False
    then show ?thesis using checkSync_quiet [OF assms False] c by simp
  qed
qed

lemma altSync_ELSync:
  assumes "SyncMode s = ELSync"
  shows "fetches (fst (eventLoop_select s Case_altSyncTicker)) =
           fetches (fst (checkSyncUnsafeBlocks s))"
    and "inserts (fst (eventLoop_select s Case_altSyncTicker)) =
           inserts (fst (checkSyncUnsafeBlocks s))"
  using assms by (auto split: prod.splits option.splits)

section \<open>Invariants of the force-reset system\<close>

lemma eventLoop_forceReset_Nil:
  "forceReset w = [] \<Longrightarrow> eventLoop_forceReset s w = None"
  by (simp add: eventLoop_forceReset_def)

lemma eventLoop_forceReset_Cons:
  "forceReset w = r # rest \<Longrightarrow>
   eventLoop_forceReset s w =
     Some (w\<lparr>forceReset := rest, loop_trace := loop_trace w @ reset_block r\<rparr>)"
  by (simp add: eventLoop_forceReset_def reset_block_def)

lemma eventLoop_forceReset_Some:
  assumes "eventLoop_forceReset s w = Some w'"
  obtains r rest where "forceReset w = r # rest"
    and "w' = w\<lparr>forceReset := rest, loop_trace := loop_trace w @ reset_block r\<rparr>"
  using assms eventLoop_forceReset_Nil [of w s] eventLoop_forceReset_Cons [of w _ _ s]
  by (cases "forceReset w") auto

lemma ChanClose_in_block [simp]:
  "(ChanClose c \<in> set (reset_block r :: 'p effect list)) = (c = r)"
  by (auto simp add: reset_block_def)

lemma blocks_only_Nil [simp]: "blocks_only []"
  by (simp add: blocks_only_def)

lemma blocks_only_snoc:
  assumes "blocks_only t"
  shows "blocks_only (t @ reset_block r)"
  unfolding blocks_only_def
proof (intro allI impI)
  fix r'
  assume "ChanClose r' \<in> set (t @ (reset_block r :: 'a effect list))"
  then consider "ChanClose r' \<in> set t" | "r' = r" by auto
  then show "\<exists>pre post. t @ reset_block r = pre @ reset_block r' @ post"
  proof cases
    case 1
    then obtain pre post where "t = pre @ reset_block r' @ post"
      using assms by (auto simp add: blocks_only_def)
    then have "t @ reset_block r = pre @ reset_block r' @ (post @ reset_block r)" by simp
    then show ?thesis by blast
  next
    case 2
    then have "t @ reset_block r = t @ reset_block r' @ []" by simp
    then show ?thesis by blast
  qed
qed

lemma reset_inv_init: "c \<notin> set q \<Longrightarrow> reset_inv c (reset_world0 q)"
  by (simp add: reset_inv_def reset_world0_def)

lemma reset_inv_step:
  assumes "reset_inv c w" "reset_step s c a w = Some w'"
  shows "reset_inv c w'"
proof (cases a)
  case (Cancel e)
  then show ?thesis using assms
    by (auto simp add: reset_step_def reset_inv_def split: option.splits)
next
  case (Caller x)
  then show ?thesis using assms
    by (auto simp add: reset_step_def reset_inv_def ResetDerivationPipeline_def
        split: option.splits rdp_pc.splits rdp_case.splits if_splits)
next
  case Loop_forceReset
  then have "eventLoop_forceReset s w = Some w'"
    using assms(2) by (simp add: reset_step_def)
  then obtain r rest where q: "forceReset w = r # rest"
    and w': "w' = w\<lparr>forceReset := rest, loop_trace := loop_trace w @ reset_block r\<rparr>"
    by (rule eventLoop_forceReset_Some)
  have "blocks_only (loop_trace w')"
    using assms(1) w' by (simp add: reset_inv_def blocks_only_snoc)
  then show ?thesis using assms(1) q w' by (auto simp add: reset_inv_def)
next
  case (Other_request r)
  then show ?thesis using assms
    by (auto simp add: reset_step_def reset_inv_def split: if_splits)
qed

lemma reset_inv_run:
  assumes "reset_inv c w" "reset_run s c as w = Some w'"
  shows "reset_inv c w'"
  using assms
proof (induction as arbitrary: w)
  case Nil
  then show ?case by simp
next
  case (Cons a as)
  then obtain w1 where s1: "reset_step s c a w = Some w1" and r: "reset_run s c as w1 = Some w'"
    by (auto split: option.splits)
  from Cons.prems(1) s1 have "reset_inv c w1" by (rule reset_inv_step)
  then show ?case using r by (rule Cons.IH)
qed





text \<open>A call that has not placed its request finds its channel neither queued nor closed.\<close>

lemma unplaced_step:
  assumes "caller w = AtOuterSelect \<longrightarrow>
             c \<notin> set (forceReset w) \<and> ChanClose c \<notin> set (loop_trace w)"
    and "reset_step s c a w = Some w'"
  shows "caller w' = AtOuterSelect \<longrightarrow>
           c \<notin> set (forceReset w') \<and> ChanClose c \<notin> set (loop_trace w')"
proof (cases a)
  case (Cancel e)
  then show ?thesis using assms by (auto simp add: reset_step_def split: option.splits)
next
  case (Caller x)
  then show ?thesis using assms
    by (auto simp add: reset_step_def ResetDerivationPipeline_def
        split: option.splits rdp_pc.splits rdp_case.splits if_splits)
next
  case Loop_forceReset
  then have "eventLoop_forceReset s w = Some w'"
    using assms(2) by (simp add: reset_step_def)
  then obtain r rest where q: "forceReset w = r # rest"
    and w': "w' = w\<lparr>forceReset := rest, loop_trace := loop_trace w @ reset_block r\<rparr>"
    by (rule eventLoop_forceReset_Some)
  show ?thesis using assms(1) q w' by auto
next
  case (Other_request r)
  then show ?thesis using assms by (auto simp add: reset_step_def split: if_splits)
qed

lemma unplaced_run:
  assumes "caller w = AtOuterSelect \<longrightarrow>
             c \<notin> set (forceReset w) \<and> ChanClose c \<notin> set (loop_trace w)"
    and "reset_run s c as w = Some w'"
  shows "caller w' = AtOuterSelect \<longrightarrow>
           c \<notin> set (forceReset w') \<and> ChanClose c \<notin> set (loop_trace w')"
  using assms
proof (induction as arbitrary: w)
  case Nil
  then show ?case by simp
next
  case (Cons a as)
  then obtain w1 where s1: "reset_step s c a w = Some w1" and r: "reset_run s c as w1 = Some w'"
    by (auto split: option.splits)
  from Cons.prems(1) s1 have "caller w1 = AtOuterSelect \<longrightarrow>
      c \<notin> set (forceReset w1) \<and> ChanClose c \<notin> set (loop_trace w1)"
    by (rule unplaced_step)
  then show ?case using r by (rule Cons.IH)
qed





section \<open>Invariant of a state request\<close>










section \<open>Properties of the driver\<close>

text \<open>
  Claim C1, as the spec states it, lets the gap check request the range from the unsafe head
  to the lowest queued block whenever the queue is not empty and the number of that block
  differs from the number of the unsafe head plus one. With unsafe head 200 and a queued block
  150 the check requests nothing.
\<close>

theorem checkForGapInUnsafeQueue_counterexample:
  "CLSync_LowestQueuedUnsafeBlock scenario_stale_queue \<noteq> zero_L2BlockRef
   \<and> Number (CLSync_LowestQueuedUnsafeBlock scenario_stale_queue)
       \<noteq> Number (Engine_UnsafeL2Head scenario_stale_queue) + 1
   \<and> range_requests (fst (checkForGapInUnsafeQueue scenario_stale_queue)) = []"
  by (simp add: checkForGapInUnsafeQueue_def scenario_stale_queue_def scenario_driver_def
      scenario_block_def zero_L2BlockRef_def)

text \<open>
  Claim C1, amended. The gap check issues one open-ended range request starting at the unsafe
  head when the lowest queued block is the zero block reference; otherwise it requests the
  range from the unsafe head to the lowest queued block exactly when the number of that block
  is greater than the number of the unsafe head plus one, computed on 64 bits; and it issues
  no request otherwise, that is, when the two numbers are equal or the queued block is not
  above the unsafe head.
\<close>

theorem checkForGapInUnsafeQueue_requests:
  "range_requests (fst (checkForGapInUnsafeQueue s)) =
     (if CLSync_LowestQueuedUnsafeBlock s = zero_L2BlockRef
      then [(Engine_UnsafeL2Head s, zero_L2BlockRef)]
      else if (uint (Number (Engine_UnsafeL2Head s)) + 1) mod 2 ^ 64
                < uint (Number (CLSync_LowestQueuedUnsafeBlock s))
      then [(Engine_UnsafeL2Head s, CLSync_LowestQueuedUnsafeBlock s)]
      else [])"
  by (simp add: checkForGapInUnsafeQueue_def Let_def word_less_def uint_word_ariths)

theorem checkForGapInUnsafeQueue_requests_witness:
  "range_requests (fst (checkForGapInUnsafeQueue scenario_driver)) =
     [(scenario_block 200, scenario_block 205)]"
  using checkForGapInUnsafeQueue_requests [of scenario_driver]
  by (simp add: scenario_driver_def scenario_block_def zero_L2BlockRef_def)

text \<open>
  Claim C4. The sync deriver handles every reset event. In managed mode the handler emits no
  event; otherwise it emits a step request followed by a request to reset the engine.
\<close>

theorem onResetEvent_emits:
  "snd (OnEvent s (ResetEvent err)) \<and>
   emitted (fst (OnEvent s (ResetEvent err))) =
     (if ManagedMode s then [] else [StepReqEvent, ResetEngineRequestEvent])"
  by (simp add: onResetEvent_def)

theorem onResetEvent_emits_witness:
  "emitted (fst (OnEvent scenario_driver (ResetEvent (Failure ''origin mismatch'')))) =
     [StepReqEvent, ResetEngineRequestEvent]
   \<and> emitted (fst (OnEvent (scenario_driver\<lparr>ManagedMode := True\<rparr>)
         (ResetEvent (Failure ''origin mismatch'')))) = []"
  using onResetEvent_emits [of scenario_driver "Failure ''origin mismatch''"]
    onResetEvent_emits [of "scenario_driver\<lparr>ManagedMode := True\<rparr>"
      "Failure ''origin mismatch''"]
  by (simp add: scenario_driver_def)

text \<open>
  Claim C5. When the engine confirms a reset, the handler emits the confirmation of the
  pipeline reset exactly once, and nothing else, if every call it makes to the safe-head
  listener succeeds: there is no listener, or the notification of the reset succeeds and,
  where the listener is enabled and the cross-safe head is the genesis block of the local
  chain, the update that follows succeeds too. If one of these calls fails the handler emits
  no event.
\<close>

theorem onEngineConfirmedReset_confirms:
  "emitted (fst (OnEvent s (EngineResetConfirmedEvent crossSafe))) =
     (if (case SafeHeadNotifs s of
            None \<Rightarrow> True
          | Some l \<Rightarrow>
              SafeHeadReset_result l crossSafe = None \<and>
              (if Enabled l \<and> ID crossSafe = Genesis_L2 s
               then SafeHeadUpdated_result l crossSafe = None else True))
      then [ConfirmPipelineResetEvent] else [])"
  by (auto simp add: onEngineConfirmedReset_def Let_def split: option.splits)

theorem onEngineConfirmedReset_confirms_witness:
  "emitted (fst (OnEvent scenario_listener (EngineResetConfirmedEvent (scenario_block 0)))) =
     [ConfirmPipelineResetEvent]
   \<and> emitted (fst (OnEvent
        (scenario_driver\<lparr>SafeHeadNotifs :=
           Some \<lparr>Enabled = True, SafeHeadReset_result = (\<lambda>r. None),
                 SafeHeadUpdated_result = (\<lambda>r. Some (Failure ''disk full''))\<rparr>\<rparr>)
        (EngineResetConfirmedEvent (scenario_block 0)))) = []"
  using onEngineConfirmedReset_confirms [of scenario_listener "scenario_block 0"]
    onEngineConfirmedReset_confirms
      [of "scenario_driver\<lparr>SafeHeadNotifs :=
           Some \<lparr>Enabled = True, SafeHeadReset_result = (\<lambda>r. None),
                 SafeHeadUpdated_result = (\<lambda>r. Some (Failure ''disk full''))\<rparr>\<rparr>"
          "scenario_block 0"]
  by (simp add: scenario_listener_def scenario_driver_def scenario_block_def ID_def)

text \<open>
  Claim C6, as the spec states it, has the loop emit exactly one event for every signal. A
  force reset and a state request emit no event, and an unsafe payload received by a CL-sync
  node emits two.
\<close>

theorem eventLoop_one_event_counterexample:
  "emitted (fst (eventLoop_select scenario_driver (Case_forceReset 3))) = []
   \<and> emitted (fst (eventLoop_select scenario_driver (Case_stateReq 3))) = []
   \<and> emitted (fst (eventLoop_select scenario_driver (Case_unsafeL2Payloads 201))) =
       [ReceivedUnsafePayloadEvent 201, StepReqEvent]"
  by (simp add: scenario_driver_def)

text \<open>
  Claim C6, amended. After waking on a signal the loop itself emits, before it goes back to
  the top: one sequencer action event for the sequencer deadline; one step attempt event for a
  scheduled step, delayed or not; the received-payload event followed by a step request for an
  unsafe payload when the node is in CL-sync mode or the engine is not syncing, and no event
  for a payload taken by the EL-sync path; no event for an alt-sync tick, a state request, a
  force reset or the end of the driver context.
\<close>

theorem eventLoop_events_per_signal:
  "emitted (fst (eventLoop_select s sig)) =
     (case sig of
        Case_sequencerCh \<Rightarrow> [SequencerActionEvent]
      | Case_altSyncTicker \<Rightarrow> []
      | Case_unsafeL2Payloads envelope \<Rightarrow>
          if SyncMode s = CLSync \<or> \<not> Engine_IsEngineSyncing s
          then [ReceivedUnsafePayloadEvent envelope, StepReqEvent] else []
      | Case_NextDelayedStep \<Rightarrow> [StepAttemptEvent]
      | Case_NextStep \<Rightarrow> [StepAttemptEvent]
      | Case_stateReq respCh \<Rightarrow> []
      | Case_forceReset respCh \<Rightarrow> []
      | Case_driverCtxDone \<Rightarrow> [])"
proof (cases sig)
  case Case_altSyncTicker
  then show ?thesis using emitted_altSync [of s] by simp
next
  case (Case_unsafeL2Payloads envelope)
  then show ?thesis by (auto split: sum.splits option.splits)
qed simp_all

theorem eventLoop_events_per_signal_witness:
  "emitted (fst (eventLoop_select scenario_driver Case_NextStep)) = [StepAttemptEvent]
   \<and> emitted (fst (eventLoop_select scenario_elsync (Case_unsafeL2Payloads 201))) = []"
  using eventLoop_events_per_signal [of scenario_driver Case_NextStep]
    eventLoop_events_per_signal [of scenario_elsync "Case_unsafeL2Payloads 201"]
  by (simp add: scenario_driver_def scenario_elsync_def scenario_block_def)

text \<open>
  Claim C7. In EL-sync mode, while the engine is syncing, an unsafe payload whose block
  reference has a number at or below the number of the unsafe head is dropped: the loop
  neither inserts it into the engine nor emits an event for it, and does nothing else. This
  holds in particular when the two numbers are equal. The payload is inserted exactly when
  its number is above the number of the unsafe head; a payload that has no block reference is
  dropped as well.
\<close>

theorem eventLoop_discards_stale_payload:
  assumes "SyncMode s = ELSync" "Engine_IsEngineSyncing s"
  shows "(case derive_PayloadToBlockRef s envelope of
            Inl err \<Rightarrow>
              inserts (fst (eventLoop_select s (Case_unsafeL2Payloads envelope))) = []
              \<and> emitted (fst (eventLoop_select s (Case_unsafeL2Payloads envelope))) = []
          | Inr ref \<Rightarrow>
              (Number ref \<le> Number (Engine_UnsafeL2Head s) \<longrightarrow>
                 eventLoop_select s (Case_unsafeL2Payloads envelope) = ([], NextIteration))
              \<and> (Number ref = Number (Engine_UnsafeL2Head s) \<longrightarrow>
                 eventLoop_select s (Case_unsafeL2Payloads envelope) = ([], NextIteration))
              \<and> inserts (fst (eventLoop_select s (Case_unsafeL2Payloads envelope))) =
                   (if Number (Engine_UnsafeL2Head s) < Number ref
                    then [(envelope, ref)] else [])
              \<and> emitted (fst (eventLoop_select s (Case_unsafeL2Payloads envelope))) = [])"
  using assms by (auto split: sum.splits option.splits)

theorem eventLoop_discards_stale_payload_witness:
  "SyncMode scenario_elsync = ELSync \<and> Engine_IsEngineSyncing scenario_elsync
   \<and> derive_PayloadToBlockRef scenario_elsync 200 = Inr (scenario_block 200)
   \<and> Number (scenario_block 200) = Number (Engine_UnsafeL2Head scenario_elsync)
   \<and> eventLoop_select scenario_elsync (Case_unsafeL2Payloads 200) = ([], NextIteration)
   \<and> derive_PayloadToBlockRef scenario_elsync 150 = Inr (scenario_block 150)
   \<and> Number (scenario_block 150) \<le> Number (Engine_UnsafeL2Head scenario_elsync)
   \<and> eventLoop_select scenario_elsync (Case_unsafeL2Payloads 150) = ([], NextIteration)"
  using eventLoop_discards_stale_payload [of scenario_elsync 200]
    eventLoop_discards_stale_payload [of scenario_elsync 150]
  by (simp add: scenario_elsync_def scenario_driver_def scenario_block_def)

text \<open>
  Claim C8, as the spec states it, makes \<open>clamp\<close> a minimum for all heights with
  \<open>start \<le> end'\<close> and all sizes of at least one, and lets every batch of the EL sync end at
  the minimum of the local head plus the maximal batch size and the head of the execution
  client. With \<open>end' = 2 ^ 63 + 5\<close> and the size \<open>2 ^ 63 + 1\<close> the signed reading of the
  size minus one wraps and \<open>clamp\<close> returns \<open>- (2 ^ 63)\<close>, where the minimum is \<open>2 ^ 63\<close>.
  With the local head at 20, the head of the execution client at 10 and batches of 5 the
  catch-up loop fetches the blocks 21 to 25, where the minimum is 10.
\<close>

theorem clamp_batch_range_counterexample:
  "(0::int) \<le> 2 ^ 63 + 5 \<and> (1::u64) \<le> 2 ^ 63 + 1
   \<and> clamp 0 (2 ^ 63 + 5) (2 ^ 63 + 1) = - (2 ^ 63)
   \<and> min ((0::int) + uint (2 ^ 63 + 1 :: u64) - 1) (2 ^ 63 + 5) = 2 ^ 63
   \<and> L2_GetLatestBlock scenario_local_ahead = (Some \<lparr>NumberU64 = 20\<rparr>, None)
   \<and> ELClient_GetLatestBlock scenario_local_ahead = (Some \<lparr>NumberU64 = 10\<rparr>, None)
   \<and> maxBatchSize scenario_local_ahead = 5
   \<and> syncUnsafeBlocks_tick scenario_local_ahead =
       ([PayloadsByRange 21 25,
         InsertUnsafePayload 21 (scenario_block 21), InsertUnsafePayload 22 (scenario_block 22),
         Log Info ''successfully synchronized a batch of blocks''], NextTick)
   \<and> min ((20::int) + 5) 10 = 10"
  by (simp add: scenario_local_ahead_def scenario_driver_def syncUnsafeBlocks_tick_def
      is_NotFound_def clamp_def big_NewInt_def big_Uint64_def scenario_block_def)

text \<open>
  Claim C8, amended. For block heights \<open>0 \<le> start \<le> end'\<close> below \<open>2 ^ 63\<close> and every batch
  size of at least one, \<open>clamp\<close> is the minimum of \<open>start + size - 1\<close> and \<open>end'\<close>. Hence,
  when both heads are obtained, the local head is below the head of the execution client and
  that head is below \<open>2 ^ 63\<close>: the range from the local head plus one to the minimum of the
  local head plus the maximal batch size and the head of the execution client is not empty
  and holds at most the maximal batch size of blocks; a tick of the catch-up loop fetches
  exactly this range if it holds more than one block, and nothing otherwise; the periodic
  check fetches exactly this range if the local head is below the head of the execution
  client minus five (on unsigned 64 bits), and nothing otherwise.
\<close>

theorem clamp_batch_range:
  fixes s :: "'p Driver"
  assumes "1 \<le> maxBatchSize s"
  shows "(0 \<le> start \<and> start \<le> end' \<and> end' < 2 ^ 63 \<longrightarrow>
            clamp start end' (maxBatchSize s) = min (start + uint (maxBatchSize s) - 1) end')
       \<and> (L2_GetLatestBlock s = (Some sb, e1) \<and> \<not> is_NotFound e1
            \<and> ELClient_GetLatestBlock s = (Some eb, e2) \<and> \<not> is_NotFound e2
            \<and> NumberU64 sb < NumberU64 eb \<and> uint (NumberU64 eb) < 2 ^ 63 \<longrightarrow>
            fetches (fst (syncUnsafeBlocks_tick s)) =
              (if uint (NumberU64 sb) + 1
                    < min (uint (NumberU64 sb) + uint (maxBatchSize s)) (uint (NumberU64 eb))
               then [(uint (NumberU64 sb) + 1,
                      min (uint (NumberU64 sb) + uint (maxBatchSize s)) (uint (NumberU64 eb)))]
               else [])
          \<and> fetches (fst (checkSyncUnsafeBlocks s)) =
              (if uint (NumberU64 sb) < (uint (NumberU64 eb) - 5) mod 2 ^ 64
               then [(uint (NumberU64 sb) + 1,
                      min (uint (NumberU64 sb) + uint (maxBatchSize s)) (uint (NumberU64 eb)))]
               else [])
          \<and> uint (NumberU64 sb) + 1
               \<le> min (uint (NumberU64 sb) + uint (maxBatchSize s)) (uint (NumberU64 eb))
          \<and> min (uint (NumberU64 sb) + uint (maxBatchSize s)) (uint (NumberU64 eb))
               - (uint (NumberU64 sb) + 1) + 1 \<le> uint (maxBatchSize s))"
proof (intro conjI impI)
  assume "0 \<le> start \<and> start \<le> end' \<and> end' < 2 ^ 63"
  then show "clamp start end' (maxBatchSize s) = min (start + uint (maxBatchSize s) - 1) end'"
    using assms by (intro clamp_min) simp_all
next
  assume h: "L2_GetLatestBlock s = (Some sb, e1) \<and> \<not> is_NotFound e1
            \<and> ELClient_GetLatestBlock s = (Some eb, e2) \<and> \<not> is_NotFound e2
            \<and> NumberU64 sb < NumberU64 eb \<and> uint (NumberU64 eb) < 2 ^ 63"
  let ?a = "uint (NumberU64 sb) + 1" and ?e = "uint (NumberU64 eb)"
  let ?b = "min (uint (NumberU64 sb) + uint (maxBatchSize s)) ?e"
  have hs: "big_NewInt (NumberU64 sb + 1) = ?a" "big_NewInt (NumberU64 eb) = ?e"
    using h heights_of_heads by blast+
  have lt: "uint (NumberU64 sb) < ?e" using h by (simp add: word_less_def)
  have nn: "0 \<le> uint (NumberU64 sb)" by simp
  have le: "?a \<le> ?e" using lt by simp
  have bd: "?e - ?a < 2 ^ 63" using nn h by linarith
  have "clamp ?a ?e (maxBatchSize s) = min (?a + uint (maxBatchSize s) - 1) ?e"
    using le bd assms by (rule clamp_min)
  then have cl: "clamp ?a ?e (maxBatchSize s) = ?b" by simp
  have one: "1 \<le> uint (maxBatchSize s)"
    using assms by (simp add: word_le_def)
  show "fetches (fst (syncUnsafeBlocks_tick s)) = (if ?a < ?b then [(?a, ?b)] else [])"
    using fetches_tick_eq [of s sb e1 eb e2] h hs cl by simp
  show "fetches (fst (checkSyncUnsafeBlocks s)) =
          (if uint (NumberU64 sb) < (?e - 5) mod 2 ^ 64 then [(?a, ?b)] else [])"
    using fetches_check_eq [of s sb e1 eb e2] h hs cl by simp
  show "?a \<le> ?b" using le one by simp
  show "?b - ?a + 1 \<le> uint (maxBatchSize s)" by simp
qed

theorem clamp_batch_range_witness:
  "1 \<le> maxBatchSize scenario_driver
   \<and> (0::int) \<le> 501 \<and> (501::int) \<le> 520 \<and> (520::int) < 2 ^ 63
   \<and> clamp 501 520 (maxBatchSize scenario_driver) = 508
   \<and> L2_GetLatestBlock scenario_driver = (Some \<lparr>NumberU64 = 500\<rparr>, None)
   \<and> ELClient_GetLatestBlock scenario_driver = (Some \<lparr>NumberU64 = 520\<rparr>, None)
   \<and> \<not> is_NotFound None
   \<and> (500::u64) < 520 \<and> uint (520::u64) < 2 ^ 63
   \<and> fetches (fst (syncUnsafeBlocks_tick scenario_driver)) = [(501, 508)]
   \<and> fetches (fst (checkSyncUnsafeBlocks scenario_driver)) = [(501, 508)]
   \<and> (508::int) - 501 + 1 \<le> uint (maxBatchSize scenario_driver)"
  using clamp_batch_range [of scenario_driver 501 520 "\<lparr>NumberU64 = 500\<rparr>" None
      "\<lparr>NumberU64 = 520\<rparr>" None]
  by (simp add: scenario_driver_def is_NotFound_def)

text \<open>
  Claim C10. On an alt-sync tick in EL-sync mode, with both heads at hand, the loop fetches a
  batch exactly when the local head number is below the head number of the execution client
  minus five, the subtraction taken on unsigned 64 bits (modulo \<open>2 ^ 64\<close>); without a fetch
  nothing is inserted, and the payloads of a fetched batch are inserted in order as long as
  each of them decodes and inserts without error. When the head of the execution client is
  below five the subtraction wraps around, and a batch is fetched for every local head below
  \<open>2 ^ 64 - 5\<close>, behind or not.
\<close>

theorem checkSyncUnsafeBlocks_wraps:
  assumes "SyncMode s = ELSync"
    and "L2_GetLatestBlock s = (Some sb, e1)" "\<not> is_NotFound e1"
    and "ELClient_GetLatestBlock s = (Some eb, e2)" "\<not> is_NotFound e2"
  shows "((fetches (fst (eventLoop_select s Case_altSyncTicker)) \<noteq> []) =
            (uint (NumberU64 sb) < (uint (NumberU64 eb) - 5) mod 2 ^ 64))
       \<and> (\<not> uint (NumberU64 sb) < (uint (NumberU64 eb) - 5) mod 2 ^ 64 \<longrightarrow>
            inserts (fst (eventLoop_select s Case_altSyncTicker)) = [])
       \<and> (uint (NumberU64 sb) < (uint (NumberU64 eb) - 5) mod 2 ^ 64 \<longrightarrow>
            (\<forall>ps. ELClient_PayloadsByRange s (big_NewInt (NumberU64 sb + 1))
                    (clamp (big_NewInt (NumberU64 sb + 1)) (big_NewInt (NumberU64 eb))
                       (maxBatchSize s)) = Inr ps
                  \<and> (\<forall>p \<in> set ps. \<exists>r. derive_PayloadToBlockRef s p = Inr r
                                        \<and> Engine_InsertUnsafePayload s p r = None)
              \<longrightarrow> map fst (inserts (fst (eventLoop_select s Case_altSyncTicker))) = ps))
       \<and> (uint (NumberU64 eb) < 5 \<and> uint (NumberU64 sb) < 2 ^ 64 - 5 \<longrightarrow>
            fetches (fst (eventLoop_select s Case_altSyncTicker)) \<noteq> [])"
proof -
  let ?c = "NumberU64 sb < NumberU64 eb - 5"
  have c: "?c = (uint (NumberU64 sb) < (uint (NumberU64 eb) - 5) mod 2 ^ 64)"
    by (simp add: word_less_def sub5)
  have f: "(fetches (fst (checkSyncUnsafeBlocks s)) \<noteq> []) = ?c"
  proof (cases ?c)
    case True
    then show ?thesis using checkSync_fetch [OF assms(2-5)] by simp
  next
    case False
    then show ?thesis using checkSync_quiet [OF assms(2-5)] by simp
  qed
  have q: "\<not> ?c \<longrightarrow> inserts (fst (checkSyncUnsafeBlocks s)) = []"
    using checkSync_quiet [OF assms(2-5)] by simp
  have i: "?c \<longrightarrow> (\<forall>ps. ELClient_PayloadsByRange s (big_NewInt (NumberU64 sb + 1))
                    (clamp (big_NewInt (NumberU64 sb + 1)) (big_NewInt (NumberU64 eb))
                       (maxBatchSize s)) = Inr ps
                  \<and> (\<forall>p \<in> set ps. \<exists>r. derive_PayloadToBlockRef s p = Inr r
                                        \<and> Engine_InsertUnsafePayload s p r = None)
              \<longrightarrow> map fst (inserts (fst (checkSyncUnsafeBlocks s))) = ps)"
    using checkSync_inserts [OF assms(2-5)] by blast
  have w: "uint (NumberU64 eb) < 5 \<and> uint (NumberU64 sb) < 2 ^ 64 - 5 \<longrightarrow> ?c"
  proof
    assume h: "uint (NumberU64 eb) < 5 \<and> uint (NumberU64 sb) < 2 ^ 64 - 5"
    have nn: "0 \<le> uint (NumberU64 eb)" by simp
    have "(uint (NumberU64 eb) - 5) mod 2 ^ 64 = uint (NumberU64 eb) - 5 + 2 ^ 64"
      using h nn by (intro mod_neg_shift) simp_all
    then show ?c using h nn c by linarith
  qed
  show ?thesis
    unfolding altSync_ELSync [OF assms(1)] using f q i w c by simp
qed

theorem checkSyncUnsafeBlocks_wraps_witness:
  "SyncMode scenario_el_behind = ELSync
   \<and> L2_GetLatestBlock scenario_el_behind = (Some \<lparr>NumberU64 = 10\<rparr>, None)
   \<and> ELClient_GetLatestBlock scenario_el_behind = (Some \<lparr>NumberU64 = 3\<rparr>, None)
   \<and> \<not> is_NotFound None
   \<and> uint (3::u64) < 5 \<and> uint (10::u64) < 2 ^ 64 - 5 \<and> \<not> (10::u64) < 3
   \<and> uint (10::u64) < (uint (3::u64) - 5) mod 2 ^ 64
   \<and> fetches (fst (eventLoop_select scenario_el_behind Case_altSyncTicker)) \<noteq> []"
  using checkSyncUnsafeBlocks_wraps [of scenario_el_behind "\<lparr>NumberU64 = 10\<rparr>" None
      "\<lparr>NumberU64 = 3\<rparr>" None]
  by (simp add: scenario_el_behind_def scenario_elsync_def scenario_driver_def
      scenario_block_def is_NotFound_def)

text \<open>
  Claim C2, as the spec states it, has \<^verbatim>\<open>ResetDerivationPipeline\<close> return nil exactly when
  the response channel has been closed, and the error of the context when the context is
  cancelled first. A select with two ready cases takes either. In the first run the loop has
  reset the pipeline and closed the channel before the context is cancelled, and the call
  returns the error of the context; in the second the context is cancelled before the loop
  serves the request, and the call returns nil.
\<close>

theorem ResetDerivationPipeline_both_ready_counterexample:
  "reset_run scenario_driver 7
     [Caller Take_send, Loop_forceReset, Cancel ContextCanceled, Caller Take_ctxDone]
     (reset_world0 []) =
     Some \<lparr>forceReset = [], ctx_Err = Some ContextCanceled,
           caller = Returned (Some ContextCanceled),
           loop_trace = [Log Warn ''Derivation pipeline is manually reset'',
                         DerivationReset, RecordPipelineReset, ChanClose 7]\<rparr>
   \<and> reset_run scenario_driver 7
       [Caller Take_send, Cancel ContextCanceled, Loop_forceReset, Caller Take_recv]
       (reset_world0 []) =
     Some \<lparr>forceReset = [], ctx_Err = Some ContextCanceled, caller = Returned None,
           loop_trace = [Log Warn ''Derivation pipeline is manually reset'',
                         DerivationReset, RecordPipelineReset, ChanClose 7]\<rparr>"
  by (simp add: reset_step_def ResetDerivationPipeline_def eventLoop_forceReset_def
      reset_world0_def forceReset_capacity_def)

text \<open>
  Claim C2, amended. For a request received from the force-reset channel the loop resets the
  derivation pipeline, records the reset metric and then closes the response channel, in this
  order. In every run of a call of \<^verbatim>\<open>ResetDerivationPipeline\<close> next to the loop: a call
  returns nil only after this sequence has run for its own response channel, and returns an
  error only if it is the error of its context. While the call waits for the reset, the
  receive from the response channel is ready exactly when the channel is closed and returns
  nil, and the case of the context is ready exactly when the context is done and returns its
  error: with a live context nil is the only result, with a done context and an open channel
  the error of the context is the only result, and with both ready either of the two is
  returned. Before the request is placed the channel is neither queued nor closed; the call
  returns the error of the context if the context is done and that case is taken, or places
  the request if the channel has room.
\<close>

theorem ResetDerivationPipeline_returns:
  assumes "reset_run s respCh as (reset_world0 q) = Some w" and "respCh \<notin> set q"
  shows "fst (eventLoop_select s (Case_forceReset respCh)) =
           [Log Warn ''Derivation pipeline is manually reset'',
            DerivationReset, RecordPipelineReset, ChanClose respCh]
       \<and> (caller w = Returned None \<longrightarrow>
            (\<exists>pre post. loop_trace w =
               pre @ [Log Warn ''Derivation pipeline is manually reset'',
                      DerivationReset, RecordPipelineReset, ChanClose respCh] @ post))
       \<and> (\<forall>e. caller w = Returned (Some e) \<longrightarrow> ctx_Err w = Some e)
       \<and> (caller w = AtInnerSelect \<longrightarrow>
            ResetDerivationPipeline respCh Take_recv w =
              (if ChanClose respCh \<in> set (loop_trace w)
               then Some (w\<lparr>caller := Returned None\<rparr>) else None)
          \<and> ResetDerivationPipeline respCh Take_ctxDone w =
              (case ctx_Err w of
                 None \<Rightarrow> None
               | Some e \<Rightarrow> Some (w\<lparr>caller := Returned (Some e)\<rparr>))
          \<and> ResetDerivationPipeline respCh Take_send w = None)
       \<and> (caller w = AtOuterSelect \<longrightarrow>
            ResetDerivationPipeline respCh Take_ctxDone w =
              (case ctx_Err w of
                 None \<Rightarrow> None
               | Some e \<Rightarrow> Some (w\<lparr>caller := Returned (Some e)\<rparr>))
          \<and> ResetDerivationPipeline respCh Take_send w =
              (if length (forceReset w) < forceReset_capacity
               then Some (w\<lparr>forceReset := forceReset w @ [respCh], caller := AtInnerSelect\<rparr>)
               else None)
          \<and> ResetDerivationPipeline respCh Take_recv w = None
          \<and> respCh \<notin> set (forceReset w) \<and> ChanClose respCh \<notin> set (loop_trace w))
       \<and> (caller w = AtInnerSelect \<and> ctx_Err w = None \<longrightarrow>
            (ChanClose respCh \<in> set (loop_trace w)) =
              (ResetDerivationPipeline respCh Take_recv w = Some (w\<lparr>caller := Returned None\<rparr>))
            \<and> (\<forall>c w'. ResetDerivationPipeline respCh c w = Some w' \<longrightarrow>
                  caller w' = Returned None))
       \<and> (\<forall>e. caller w = AtInnerSelect \<and> ctx_Err w = Some e
               \<and> ChanClose respCh \<notin> set (loop_trace w) \<longrightarrow>
            ResetDerivationPipeline respCh Take_ctxDone w =
              Some (w\<lparr>caller := Returned (Some e)\<rparr>)
            \<and> (\<forall>c w'. ResetDerivationPipeline respCh c w = Some w' \<longrightarrow>
                  caller w' = Returned (Some e)))"
proof -
  have arm: "fst (eventLoop_select s (Case_forceReset respCh)) =
           [Log Warn ''Derivation pipeline is manually reset'',
            DerivationReset, RecordPipelineReset, ChanClose respCh]"
    by simp
  have inv: "reset_inv respCh w"
    using reset_inv_init [OF assms(2)] assms(1) by (rule reset_inv_run)
  have "caller w = Returned None \<longrightarrow>
            (\<exists>pre post. loop_trace w = pre @ reset_block respCh @ post)"
    using inv by (auto simp add: reset_inv_def blocks_only_def)
  then have nil: "caller w = Returned None \<longrightarrow>
            (\<exists>pre post. loop_trace w =
               pre @ [Log Warn ''Derivation pipeline is manually reset'',
                      DerivationReset, RecordPipelineReset, ChanClose respCh] @ post)"
    unfolding reset_block_def .
  have err: "\<forall>e. caller w = Returned (Some e) \<longrightarrow> ctx_Err w = Some e"
    using inv by (simp add: reset_inv_def)
  have inner: "caller w = AtInnerSelect \<longrightarrow>
            ResetDerivationPipeline respCh Take_recv w =
              (if ChanClose respCh \<in> set (loop_trace w)
               then Some (w\<lparr>caller := Returned None\<rparr>) else None)
          \<and> ResetDerivationPipeline respCh Take_ctxDone w =
              (case ctx_Err w of
                 None \<Rightarrow> None
               | Some e \<Rightarrow> Some (w\<lparr>caller := Returned (Some e)\<rparr>))
          \<and> ResetDerivationPipeline respCh Take_send w = None"
    by (simp add: ResetDerivationPipeline_def)
  have "caller (reset_world0 q :: 'a reset_world) = AtOuterSelect \<longrightarrow>
          respCh \<notin> set (forceReset (reset_world0 q :: 'a reset_world))
          \<and> ChanClose respCh \<notin> set (loop_trace (reset_world0 q :: 'a reset_world))"
    using assms(2) by (simp add: reset_world0_def)
  then have unplaced: "caller w = AtOuterSelect \<longrightarrow>
      respCh \<notin> set (forceReset w) \<and> ChanClose respCh \<notin> set (loop_trace w)"
    using assms(1) by (rule unplaced_run)
  have outer: "caller w = AtOuterSelect \<longrightarrow>
            ResetDerivationPipeline respCh Take_ctxDone w =
              (case ctx_Err w of
                 None \<Rightarrow> None
               | Some e \<Rightarrow> Some (w\<lparr>caller := Returned (Some e)\<rparr>))
          \<and> ResetDerivationPipeline respCh Take_send w =
              (if length (forceReset w) < forceReset_capacity
               then Some (w\<lparr>forceReset := forceReset w @ [respCh], caller := AtInnerSelect\<rparr>)
               else None)
          \<and> ResetDerivationPipeline respCh Take_recv w = None
          \<and> respCh \<notin> set (forceReset w) \<and> ChanClose respCh \<notin> set (loop_trace w)"
    using unplaced by (simp add: ResetDerivationPipeline_def)
  have live: "caller w = AtInnerSelect \<and> ctx_Err w = None \<longrightarrow>
            (ChanClose respCh \<in> set (loop_trace w)) =
              (ResetDerivationPipeline respCh Take_recv w = Some (w\<lparr>caller := Returned None\<rparr>))
            \<and> (\<forall>c w'. ResetDerivationPipeline respCh c w = Some w' \<longrightarrow>
                  caller w' = Returned None)"
    by (auto simp add: ResetDerivationPipeline_def split: rdp_case.splits if_splits)
  have dead: "\<forall>e. caller w = AtInnerSelect \<and> ctx_Err w = Some e
               \<and> ChanClose respCh \<notin> set (loop_trace w) \<longrightarrow>
            ResetDerivationPipeline respCh Take_ctxDone w =
              Some (w\<lparr>caller := Returned (Some e)\<rparr>)
            \<and> (\<forall>c w'. ResetDerivationPipeline respCh c w = Some w' \<longrightarrow>
                  caller w' = Returned (Some e))"
    by (auto simp add: ResetDerivationPipeline_def split: rdp_case.splits if_splits)
  show ?thesis
    by (rule conjI [OF arm conjI [OF nil conjI [OF err conjI [OF inner
          conjI [OF outer conjI [OF live dead]]]]]])
qed

theorem ResetDerivationPipeline_returns_witness:
  "reset_run scenario_driver 7 [Caller Take_send, Loop_forceReset, Cancel ContextCanceled]
     (reset_world0 []) =
     Some \<lparr>forceReset = [], ctx_Err = Some ContextCanceled, caller = AtInnerSelect,
           loop_trace = [Log Warn ''Derivation pipeline is manually reset'',
                         DerivationReset, RecordPipelineReset, ChanClose 7]\<rparr>
   \<and> 7 \<notin> set ([] :: chan_id list)
   \<and> ResetDerivationPipeline 7 Take_recv
        \<lparr>forceReset = [], ctx_Err = Some ContextCanceled, caller = AtInnerSelect,
           loop_trace = [Log Warn ''Derivation pipeline is manually reset'',
                         DerivationReset, RecordPipelineReset, ChanClose 7 :: nat effect]\<rparr> =
       Some \<lparr>forceReset = [], ctx_Err = Some ContextCanceled, caller = Returned None,
           loop_trace = [Log Warn ''Derivation pipeline is manually reset'',
                         DerivationReset, RecordPipelineReset, ChanClose 7]\<rparr>
   \<and> ResetDerivationPipeline 7 Take_ctxDone
        \<lparr>forceReset = [], ctx_Err = Some ContextCanceled, caller = AtInnerSelect,
           loop_trace = [Log Warn ''Derivation pipeline is manually reset'',
                         DerivationReset, RecordPipelineReset, ChanClose 7 :: nat effect]\<rparr> =
       Some \<lparr>forceReset = [], ctx_Err = Some ContextCanceled,
           caller = Returned (Some ContextCanceled),
           loop_trace = [Log Warn ''Derivation pipeline is manually reset'',
                         DerivationReset, RecordPipelineReset, ChanClose 7]\<rparr>"
  using ResetDerivationPipeline_returns [of scenario_driver 7
      "[Caller Take_send, Loop_forceReset, Cancel ContextCanceled]" "[]"
      "\<lparr>forceReset = [], ctx_Err = Some ContextCanceled, caller = AtInnerSelect,
           loop_trace = [Log Warn ''Derivation pipeline is manually reset'',
                         DerivationReset, RecordPipelineReset, ChanClose 7]\<rparr>"]
  by (simp add: reset_step_def ResetDerivationPipeline_def eventLoop_forceReset_def
      reset_world0_def forceReset_capacity_def)





end
